theory Spec2Isabelle
  imports
    Main
    "HOL-Library.Word"
    "HOL-Library.Char_ord"
    "HOL-Library.List_Lexorder"
    "HOL-Library.Product_Lexorder"
    "HOL-Library.Multiset"
begin

unbundle bit_operations_syntax

section \<open>Webhook ingestion service: storage, queries, signatures, validation\<close>

text \<open>
  A Python \<open>str\<close> is modelled as a \<open>string\<close>: one \<open>char\<close> is one code point
  (below 256), so \<open>length\<close> is Python's \<open>len\<close>; \<open>None\<close> is \<open>None\<close>.
  The order on strings is the lexicographic order on code points, which is the
  order of SQLite's BINARY collation on TEXT values.
\<close>

subsection \<open>The messages table (app/storage.py)\<close>

text \<open>The validated payload, class \<open>MessageIn\<close> of app/models.py.\<close>

record MessageIn =
  m_message_id :: string
  m_from :: string
  m_to :: string
  m_ts :: string
  m_text :: "string option"

text \<open>
  A row of table \<open>messages\<close>, with the columns of \<open>init_db\<close>; \<open>message_id\<close> is the
  primary key, \<open>text\<close> is the only nullable column.
\<close>

record row =
  message_id :: string
  from_msisdn :: string
  to_msisdn :: string
  ts :: string
  text_col :: "string option"
  created_at :: string

text \<open>The table is the list of its rows, in the order of their insertion.\<close>

type_synonym store = "row list"

datatype sqlite_error = IntegrityError

text \<open>
  \<open>INSERT INTO messages ... VALUES (?, ?, ?, ?, ?, datetime('now'))\<close>: the
  primary key rejects a \<open>message_id\<close> that some row already has; \<open>now\<close> is the value of
  \<open>datetime('now')\<close> at the call.
\<close>

definition sql_insert :: "string \<Rightarrow> MessageIn \<Rightarrow> store \<Rightarrow> sqlite_error + store" where
  "sql_insert now msg db =
     (if m_message_id msg \<in> set (map message_id db) then Inl IntegrityError
      else Inr (db @ [\<lparr>message_id = m_message_id msg, from_msisdn = m_from msg,
                       to_msisdn = m_to msg, ts = m_ts msg, text_col = m_text msg,
                       created_at = now\<rparr>]))"

text \<open>
  \<open>insert_message_idempotent\<close>: \<open>True\<close> and the committed table when the insert
  succeeds, \<open>False\<close> and the table as it was when the insert raises
  \<open>sqlite3.IntegrityError\<close>.
\<close>

definition insert_message_idempotent :: "string \<Rightarrow> MessageIn \<Rightarrow> store \<Rightarrow> bool \<times> store" where
  "insert_message_idempotent now msg db =
     (case sql_insert now msg db of
        Inr db' \<Rightarrow> (True, db')
      | Inl IntegrityError \<Rightarrow> (False, db))"

subsection \<open>Listing (app/storage.py, \<open>list_messages\<close>)\<close>

text \<open>
  SQLite's \<open>LIKE\<close>, as the query uses it (no \<open>ESCAPE\<close>, no
  \<open>case_sensitive_like\<close> pragma): in the pattern \<open>%\<close> stands for any run of
  characters and \<open>_\<close> for any one character; every other character matches
  itself, the ASCII letters without regard to case.
\<close>

definition sql_lower :: "char \<Rightarrow> char" where
  "sql_lower c =
     (if CHR ''A'' \<le> c \<and> c \<le> CHR ''Z'' then char_of (of_char c + (32::nat)) else c)"

fun pattern_compare :: "string \<Rightarrow> string \<Rightarrow> bool" where
  "pattern_compare [] s = (s = [])"
| "pattern_compare (p # ps) s =
     (if p = CHR ''%''
      then pattern_compare ps s \<or> (case s of [] \<Rightarrow> False | c # cs \<Rightarrow> pattern_compare (p # ps) cs)
      else (case s of [] \<Rightarrow> False
            | c # cs \<Rightarrow> (p = CHR ''_'' \<or> sql_lower p = sql_lower c) \<and> pattern_compare ps cs))"

text \<open>
  The \<open>LIKE\<close> function reads the pattern and the text as C strings: each ends
  at its first NUL character, if it has one.
\<close>

definition c_string :: "string \<Rightarrow> string" where
  "c_string s = takeWhile (\<lambda>c. c \<noteq> CHR 0x00) s"

definition sql_like :: "string \<Rightarrow> string \<Rightarrow> bool" where
  "sql_like p s = pattern_compare (c_string p) (c_string s)"

text \<open>The number of bytes of a string in UTF-8: one below code point 128, else two.\<close>

definition utf8_length :: "string \<Rightarrow> nat" where
  "utf8_length s = sum_list (map (\<lambda>c. if (of_char c :: nat) < 128 then 1 else 2) s)"

text \<open>
  A statement that fails raises \<open>sqlite3.OperationalError\<close>, which
  \<open>list_messages\<close> does not catch.
\<close>

datatype query_error = OperationalError

text \<open>
  The \<open>LIKE\<close> function applied to the \<open>text\<close> column: a pattern of more than
  50000 bytes is the error \<open>LIKE or GLOB pattern too complex\<close>, whatever the
  text is; a comparison with NULL is not true.
\<close>

definition like_func :: "string \<Rightarrow> string option \<Rightarrow> query_error + bool" where
  "like_func p t =
     (if utf8_length p > 50000 then Inl OperationalError
      else Inr (case t of None \<Rightarrow> False | Some s \<Rightarrow> sql_like p s))"

text \<open>
  The entries of \<open>where_clauses\<close>, each with its bound parameter:
  \<open>from_msisdn = ?\<close>, \<open>ts >= ?\<close> and \<open>text LIKE ?\<close>.
\<close>

datatype clause = From_eq string | Ts_ge string | Text_like string

fun holds :: "clause \<Rightarrow> row \<Rightarrow> query_error + bool" where
  "holds (From_eq v) r = Inr (from_msisdn r = v)"
| "holds (Ts_ge v) r = Inr (v \<le> ts r)"
| "holds (Text_like p) r = like_func p (text_col r)"

text \<open>Python's truth value of an \<open>Optional[str]\<close>: false for \<open>None\<close> and for \<open>""\<close>.\<close>

fun truthy :: "string option \<Rightarrow> bool" where
  "truthy None = False"
| "truthy (Some s) = (s \<noteq> [])"

text \<open>The three \<open>if\<close> statements that fill \<open>where_clauses\<close> and \<open>params\<close>.\<close>

definition where_clauses :: "string option \<Rightarrow> string option \<Rightarrow> string option \<Rightarrow> clause list" where
  "where_clauses from_filter since q =
     (case from_filter of Some v \<Rightarrow> if truthy from_filter then [From_eq v] else [] | None \<Rightarrow> [])
     @ (case since of Some v \<Rightarrow> if truthy since then [Ts_ge v] else [] | None \<Rightarrow> [])
     @ (case q of Some v \<Rightarrow> if truthy q then [Text_like (''%'' @ v @ ''%'')] else [] | None \<Rightarrow> [])"

text \<open>
  \<open>WHERE c1 AND c2 ...\<close> on one row: the clauses are tested in their order
  and the first that is not true ends the test, so a later clause is not
  evaluated; with no clause there is no \<open>WHERE\<close>.
\<close>

fun where_row :: "clause list \<Rightarrow> row \<Rightarrow> query_error + bool" where
  "where_row [] r = Inr True"
| "where_row (c # cs) r =
     (case holds c r of
        Inl e \<Rightarrow> Inl e
      | Inr b \<Rightarrow> if b then where_row cs r else Inr False)"

text \<open>\<open>FROM messages WHERE ...\<close>: the rows that pass, unless the test of a row fails.\<close>

fun base_query :: "clause list \<Rightarrow> store \<Rightarrow> query_error + row list" where
  "base_query cs [] = Inr []"
| "base_query cs (r # rows) =
     (case where_row cs r of
        Inl e \<Rightarrow> Inl e
      | Inr b \<Rightarrow> (case base_query cs rows of
                    Inl e \<Rightarrow> Inl e
                  | Inr found \<Rightarrow> Inr (if b then r # found else found)))"

text \<open>\<open>ORDER BY ts ASC, message_id ASC\<close>.\<close>

definition order_by_ts_id :: "row list \<Rightarrow> row list" where
  "order_by_ts_id rows = sort_key (\<lambda>r. (ts r, message_id r)) rows"

text \<open>
  \<open>LIMIT ? OFFSET ?\<close> in SQLite: a negative offset skips nothing and a negative
  limit puts no bound on the number of rows. The two are bound as SQLite
  integers and taken in their range of 64 bits.
\<close>

definition limit_offset :: "int \<Rightarrow> int \<Rightarrow> 'a list \<Rightarrow> 'a list" where
  "limit_offset limit offset rows =
     (let rest = (if offset \<le> 0 then rows else drop (nat offset) rows)
      in if limit < 0 then rest else take (nat limit) rest)"

text \<open>The dictionaries of \<open>items\<close>: every column but \<open>created_at\<close>.\<close>

record item =
  item_message_id :: string
  item_from :: string
  item_to :: string
  item_ts :: string
  item_text :: "string option"

definition to_item :: "row \<Rightarrow> item" where
  "to_item r = \<lparr>item_message_id = message_id r, item_from = from_msisdn r,
                item_to = to_msisdn r, item_ts = ts r, item_text = text_col r\<rparr>"

text \<open>
  \<open>list_messages\<close> runs the count and then the page over the same
  \<open>base_query\<close>; an error of the statement leaves the function as an exception.
\<close>

definition list_messages ::
  "int \<Rightarrow> int \<Rightarrow> string option \<Rightarrow> string option \<Rightarrow> string option \<Rightarrow> store
     \<Rightarrow> query_error + (item list \<times> int)" where
  "list_messages limit offset from_filter since q db =
     (let cs = where_clauses from_filter since q
      in case base_query cs db of
           Inl e \<Rightarrow> Inl e
         | Inr found \<Rightarrow>
             (let total = int (length found);
                  rows = limit_offset limit offset (order_by_ts_id found)
              in Inr (map to_item rows, total)))"

text \<open>The items that a call returns; a call that raises returns none.\<close>

definition returned_items :: "query_error + (item list \<times> int) \<Rightarrow> item list" where
  "returned_items res = (case res of Inr (items, n) \<Rightarrow> items | Inl e \<Rightarrow> [])"

text \<open>The rows that pass the clauses, for the statements about the result.\<close>

definition passing :: "clause list \<Rightarrow> store \<Rightarrow> row list" where
  "passing cs db = filter (\<lambda>r. where_row cs r = Inr True) db"

subsection \<open>Statistics (app/storage.py, \<open>get_stats\<close>)\<close>

record sender_count =
  sender :: string
  cnt :: int

record stats =
  total_messages :: int
  senders_count :: int
  messages_per_sender :: "sender_count list"
  first_message_ts :: "string option"
  last_message_ts :: "string option"

text \<open>
  \<open>SELECT from_msisdn AS sender, COUNT(*) AS cnt FROM messages GROUP BY from_msisdn\<close>:
  one row for each sender. SQL leaves the order of the groups open; they are
  taken here in the order of the senders.
\<close>

definition group_by_sender :: "store \<Rightarrow> sender_count list" where
  "group_by_sender db =
     map (\<lambda>s. \<lparr>sender = s, cnt = int (length (filter (\<lambda>r. from_msisdn r = s) db))\<rparr>)
       (sort (remdups (map from_msisdn db)))"

text \<open>
  \<open>ORDER BY cnt DESC LIMIT 10\<close>. The sort keeps groups of equal count in the
  order they come in, which is one of the orders SQL allows.
\<close>

definition top_senders :: "store \<Rightarrow> sender_count list" where
  "top_senders db = limit_offset 10 0 (sort_key (\<lambda>g. - cnt g) (group_by_sender db))"

text \<open>
  \<open>fetchone\<close> of a query with \<open>LIMIT 1\<close>: the first row, or \<open>None\<close>. The message ids
  differ, so \<open>ORDER BY ts DESC, message_id DESC\<close> is the ascending order
  reversed.
\<close>

definition fetchone :: "'a list \<Rightarrow> 'a option" where
  "fetchone rows = (case rows of [] \<Rightarrow> None | r # _ \<Rightarrow> Some r)"

definition get_stats :: "store \<Rightarrow> stats" where
  "get_stats db =
     (let first_row = fetchone (limit_offset 1 0 (order_by_ts_id db));
          last_row = fetchone (limit_offset 1 0 (rev (order_by_ts_id db)))
      in \<lparr>total_messages = int (length db),
          senders_count = int (length (remdups (map from_msisdn db))),
          messages_per_sender = top_senders db,
          first_message_ts = (case first_row of Some r \<Rightarrow> Some (ts r) | None \<Rightarrow> None),
          last_message_ts = (case last_row of Some r \<Rightarrow> Some (ts r) | None \<Rightarrow> None)\<rparr>)"

subsection \<open>Payload validation (app/models.py, \<open>MessageIn\<close>)\<close>

text \<open>
  \<open>str.isspace\<close> for the code points below 256: tab to carriage return, the
  four separators 28 to 31, space, NEL (133) and the no-break space (160).
\<close>

definition isspace :: "char \<Rightarrow> bool" where
  "isspace c = (let n = (of_char c :: nat)
                in (9 \<le> n \<and> n \<le> 13) \<or> (28 \<le> n \<and> n \<le> 32) \<or> n = 133 \<or> n = 160)"

text \<open>\<open>str.strip()\<close>: whitespace is dropped at both ends.\<close>

definition strip :: "string \<Rightarrow> string" where
  "strip s = rev (dropWhile isspace (rev (dropWhile isspace s)))"

text \<open>\<open>\d\<close> of the \<open>re\<close> module; below code point 256 the decimal digits are 0 to 9.\<close>

definition is_digit :: "char \<Rightarrow> bool" where
  "is_digit c = (CHR ''0'' \<le> c \<and> c \<le> CHR ''9'')"

text \<open>
  \<open>E164_REGEX.match(v)\<close> for the pattern \<open>^\+[1-9]\d{1,14}$\<close>, as the matcher
  runs: a plus sign, a digit from 1 to 9, then the longest run of digits, which
  must have 1 to 14 of them and be followed by the end of the string;
  \<open>$\<close> also matches just before a newline that ends the string.
\<close>

definition E164_REGEX_match :: "string \<Rightarrow> bool" where
  "E164_REGEX_match v =
     (case v of
        p # d # rest \<Rightarrow>
          p = CHR ''+'' \<and> CHR ''1'' \<le> d \<and> d \<le> CHR ''9''
          \<and> (let ds = takeWhile is_digit rest; sfx = dropWhile is_digit rest
             in 1 \<le> length ds \<and> length ds \<le> 14 \<and> (sfx = [] \<or> sfx = [CHR 0x0A]))
      | _ \<Rightarrow> False)"

text \<open>\<open>v.endswith("Z")\<close> and \<open>v.replace("Z", "+00:00")\<close>, which replaces every Z.\<close>

definition endswith_Z :: "string \<Rightarrow> bool" where
  "endswith_Z v = (v \<noteq> [] \<and> last v = CHR ''Z'')"

definition replace_Z :: "string \<Rightarrow> string" where
  "replace_Z v = concat (map (\<lambda>c. if c = CHR ''Z'' then ''+00:00'' else [c]) v)"

text \<open>
  The validators of \<open>MessageIn\<close>: \<open>Inl\<close> carries the message of the
  \<open>ValueError\<close>, \<open>Inr\<close> the accepted value.
\<close>

definition validate_message_id :: "string \<Rightarrow> string + string" where
  "validate_message_id v =
     (if v = [] \<or> strip v = [] then Inl ''message_id must be non-empty'' else Inr v)"

definition validate_from :: "string \<Rightarrow> string + string" where
  "validate_from v = (if \<not> E164_REGEX_match v then Inl ''from must be in E.164 format'' else Inr v)"

definition validate_to :: "string \<Rightarrow> string + string" where
  "validate_to v = (if \<not> E164_REGEX_match v then Inl ''to must be in E.164 format'' else Inr v)"

text \<open>
  \<open>datetime.fromisoformat\<close> belongs to the Python library and the formats it
  accepts depend on the Python version, so it is a parameter: \<open>fromisoformat s\<close>
  holds when the call returns and fails when it raises.
\<close>

definition validate_ts :: "(string \<Rightarrow> bool) \<Rightarrow> string \<Rightarrow> string + string" where
  "validate_ts fromisoformat v =
     (if \<not> endswith_Z v then Inl ''ts must be ISO-8601 UTC with Z''
      else if \<not> fromisoformat (replace_Z v) then Inl ''ts must be ISO-8601 UTC with Z''
      else Inr v)"

definition validate_text :: "string option \<Rightarrow> string + string option" where
  "validate_text v =
     (case v of
        Some t \<Rightarrow> if length t > 4096 then Inl ''text must be at most 4096 characters'' else Inr v
      | None \<Rightarrow> Inr v)"

text \<open>
  The object handed to \<open>MessageIn.parse_obj\<close>, with the fields that the model
  reads: a field is missing, or null, or a string.
\<close>

datatype field = Missing | Null | Str string

record raw_message =
  raw_message_id :: field
  raw_from :: field
  raw_to :: field
  raw_ts :: field
  raw_text :: field

text \<open>An entry of a \<open>ValidationError\<close>: the field and the message.\<close>

type_synonym field_error = "string \<times> string"

text \<open>
  A required field: pydantic reports a missing one and a null one itself and
  calls the validator on a string.
\<close>

definition required_field :: "string \<Rightarrow> (string \<Rightarrow> string + string) \<Rightarrow> field \<Rightarrow> field_error list" where
  "required_field name validator v =
     (case v of
        Missing \<Rightarrow> [(name, ''field required'')]
      | Null \<Rightarrow> [(name, ''none is not an allowed value'')]
      | Str s \<Rightarrow> (case validator s of Inl msg \<Rightarrow> [(name, msg)] | Inr _ \<Rightarrow> []))"

text \<open>The optional field \<open>text\<close>: missing and null are both \<open>None\<close>.\<close>

definition optional_field :: "field \<Rightarrow> string option" where
  "optional_field v = (case v of Str s \<Rightarrow> Some s | _ \<Rightarrow> None)"

text \<open>
  \<open>parse_obj\<close> validates every field and raises a \<open>ValidationError\<close> with all
  the errors found; without errors it returns the message. The text validator
  lets \<open>None\<close> through.
\<close>

definition parse_obj :: "(string \<Rightarrow> bool) \<Rightarrow> raw_message \<Rightarrow> field_error list + MessageIn" where
  "parse_obj fromisoformat raw =
     (let errors =
            required_field ''message_id'' validate_message_id (raw_message_id raw)
          @ required_field ''from'' validate_from (raw_from raw)
          @ required_field ''to'' validate_to (raw_to raw)
          @ required_field ''ts'' (validate_ts fromisoformat) (raw_ts raw)
          @ (case validate_text (optional_field (raw_text raw)) of
               Inl msg \<Rightarrow> [(''text'', msg)] | Inr _ \<Rightarrow> [])
      in case (errors, raw_message_id raw, raw_from raw, raw_to raw, raw_ts raw) of
           ([], Str i, Str f, Str t, Str s) \<Rightarrow>
             Inr \<lparr>m_message_id = i, m_from = f, m_to = t, m_ts = s,
                  m_text = optional_field (raw_text raw)\<rparr>
         | _ \<Rightarrow> Inl errors)"

subsection \<open>SHA-256 and HMAC\<close>

text \<open>
  \<open>hashlib.sha256\<close> and \<open>hmac.new(key, msg, sha256)\<close> belong to the Python
  library; they are written out after FIPS 180-4 and RFC 2104, on bytes.
\<close>

type_synonym byte = "8 word"

definition K256 :: "32 word list" where
  "K256 =
    [0x428a2f98, 0x71374491, 0xb5c0fbcf, 0xe9b5dba5, 0x3956c25b, 0x59f111f1, 0x923f82a4, 0xab1c5ed5,
     0xd807aa98, 0x12835b01, 0x243185be, 0x550c7dc3, 0x72be5d74, 0x80deb1fe, 0x9bdc06a7, 0xc19bf174,
     0xe49b69c1, 0xefbe4786, 0x0fc19dc6, 0x240ca1cc, 0x2de92c6f, 0x4a7484aa, 0x5cb0a9dc, 0x76f988da,
     0x983e5152, 0xa831c66d, 0xb00327c8, 0xbf597fc7, 0xc6e00bf3, 0xd5a79147, 0x06ca6351, 0x14292967,
     0x27b70a85, 0x2e1b2138, 0x4d2c6dfc, 0x53380d13, 0x650a7354, 0x766a0abb, 0x81c2c92e, 0x92722c85,
     0xa2bfe8a1, 0xa81a664b, 0xc24b8b70, 0xc76c51a3, 0xd192e819, 0xd6990624, 0xf40e3585, 0x106aa070,
     0x19a4c116, 0x1e376c08, 0x2748774c, 0x34b0bcb5, 0x391c0cb3, 0x4ed8aa4a, 0x5b9cca4f, 0x682e6ff3,
     0x748f82ee, 0x78a5636f, 0x84c87814, 0x8cc70208, 0x90befffa, 0xa4506ceb, 0xbef9a3f7, 0xc67178f2]"

definition H256 :: "32 word list" where
  "H256 = [0x6a09e667, 0xbb67ae85, 0x3c6ef372, 0xa54ff53a, 0x510e527f, 0x9b05688c, 0x1f83d9ab, 0x5be0cd19]"

definition Ch :: "32 word \<Rightarrow> 32 word \<Rightarrow> 32 word \<Rightarrow> 32 word" where
  "Ch x y z = (x AND y) XOR (NOT x AND z)"

definition Maj :: "32 word \<Rightarrow> 32 word \<Rightarrow> 32 word \<Rightarrow> 32 word" where
  "Maj x y z = (x AND y) XOR (x AND z) XOR (y AND z)"

definition Sigma0 :: "32 word \<Rightarrow> 32 word" where
  "Sigma0 x = word_rotr 2 x XOR word_rotr 13 x XOR word_rotr 22 x"

definition Sigma1 :: "32 word \<Rightarrow> 32 word" where
  "Sigma1 x = word_rotr 6 x XOR word_rotr 11 x XOR word_rotr 25 x"

definition sigma0 :: "32 word \<Rightarrow> 32 word" where
  "sigma0 x = word_rotr 7 x XOR word_rotr 18 x XOR drop_bit 3 x"

definition sigma1 :: "32 word \<Rightarrow> 32 word" where
  "sigma1 x = word_rotr 17 x XOR word_rotr 19 x XOR drop_bit 10 x"

text \<open>Big-endian conversions between bytes and words.\<close>

definition be32 :: "byte list \<Rightarrow> 32 word" where
  "be32 bs = fold (\<lambda>b acc. push_bit 8 acc OR ucast b) bs 0"

definition be_bytes32 :: "32 word \<Rightarrow> byte list" where
  "be_bytes32 w = map (\<lambda>i. ucast (drop_bit (8 * i) w)) [3, 2, 1, 0]"

definition be_bytes64 :: "64 word \<Rightarrow> byte list" where
  "be_bytes64 w = map (\<lambda>i. ucast (drop_bit (8 * i) w)) [7, 6, 5, 4, 3, 2, 1, 0]"

definition chunks :: "nat \<Rightarrow> 'a list \<Rightarrow> 'a list list" where
  "chunks n xs = map (\<lambda>i. take n (drop (i * n) xs)) [0 ..< length xs div n]"

text \<open>
  Padding: the bit 1, zeros, and the length of the message in bits as 64 bits,
  up to a multiple of 64 bytes.
\<close>

definition sha256_pad :: "byte list \<Rightarrow> byte list" where
  "sha256_pad msg =
     msg @ [0x80] @ replicate ((119 - length msg mod 64) mod 64) 0
         @ be_bytes64 (of_nat (8 * length msg))"

text \<open>The message schedule: \<open>schedule 48\<close> extends the 16 words of a block to 64.\<close>

fun schedule :: "nat \<Rightarrow> 32 word list \<Rightarrow> 32 word list" where
  "schedule 0 w = w"
| "schedule (Suc k) w =
     (let t = length w
      in schedule k (w @ [sigma1 (w ! (t - 2)) + w ! (t - 7) + sigma0 (w ! (t - 15)) + w ! (t - 16)]))"

definition sha256_round :: "32 word \<times> 32 word \<Rightarrow> 32 word list \<Rightarrow> 32 word list" where
  "sha256_round kw s =
     (case s of
        [a, b, c, d, e, f, g, h] \<Rightarrow>
          (let t1 = h + Sigma1 e + Ch e f g + fst kw + snd kw;
               t2 = Sigma0 a + Maj a b c
           in [t1 + t2, a, b, c, d + t1, e, f, g])
      | _ \<Rightarrow> s)"

definition sha256_compress :: "byte list \<Rightarrow> 32 word list \<Rightarrow> 32 word list" where
  "sha256_compress block hs =
     (let w = schedule 48 (map be32 (chunks 4 block))
      in map2 (+) hs (fold sha256_round (zip K256 w) hs))"

definition sha256 :: "byte list \<Rightarrow> byte list" where
  "sha256 msg = concat (map be_bytes32 (fold sha256_compress (chunks 64 (sha256_pad msg)) H256))"

text \<open>\<open>hexdigest()\<close>: two lower-case hexadecimal digits for each byte.\<close>

definition hex_digit :: "nat \<Rightarrow> char" where
  "hex_digit n = ''0123456789abcdef'' ! (n mod 16)"

definition hexdigest :: "byte list \<Rightarrow> string" where
  "hexdigest bs = concat (map (\<lambda>b. [hex_digit (unat b div 16), hex_digit (unat b mod 16)]) bs)"

text \<open>
  HMAC with block size 64: a key longer than a block is hashed, a shorter one
  is filled up with zero bytes.
\<close>

definition hmac_digest :: "byte list \<Rightarrow> byte list \<Rightarrow> byte list" where
  "hmac_digest key msg =
     (let k0 = (if length key > 64 then sha256 key else key);
          k = k0 @ replicate (64 - length k0) 0
      in sha256 (map (\<lambda>b. b XOR 0x5c) k @ sha256 (map (\<lambda>b. b XOR 0x36) k @ msg)))"

text \<open>\<open>str.encode("utf-8")\<close> for code points below 256: one byte below 128, else two.\<close>

definition encode_utf8 :: "string \<Rightarrow> byte list" where
  "encode_utf8 s =
     concat (map (\<lambda>c. let n = (of_char c :: nat)
                      in if n < 128 then [of_nat n]
                         else [of_nat (192 + n div 64), of_nat (128 + n mod 64)]) s)"

subsection \<open>Signature check (app/main.py, \<open>verify_signature\<close>)\<close>

datatype py_error = TypeError | UnicodeDecodeError

definition is_ascii :: "char \<Rightarrow> bool" where
  "is_ascii c = ((of_char c :: nat) < 128)"

text \<open>
  \<open>hmac.compare_digest\<close> on two \<open>str\<close>: it raises \<open>TypeError\<close> when one of
  them has a character that is not ASCII, and compares them otherwise.
\<close>

definition compare_digest :: "string \<Rightarrow> string \<Rightarrow> py_error + bool" where
  "compare_digest a b =
     (if list_all is_ascii a \<and> list_all is_ascii b then Inr (a = b) else Inl TypeError)"

text \<open>
  \<open>verify_signature\<close>. The header is a \<open>str\<close>, so \<open>strip\<close> does not raise and
  the \<open>except\<close> branch around it is never taken; \<open>compare_digest\<close> is called
  outside the \<open>try\<close>.
\<close>

definition verify_signature :: "string \<Rightarrow> byte list \<Rightarrow> string \<Rightarrow> py_error + bool" where
  "verify_signature secret body signature_header =
     (let provided_sig = strip signature_header;
          computed = hexdigest (hmac_digest (encode_utf8 secret) body)
      in compare_digest computed provided_sig)"

subsection \<open>The endpoints (app/main.py)\<close>

definition HTTP_200_OK :: nat where "HTTP_200_OK = 200"
definition HTTP_400_BAD_REQUEST :: nat where "HTTP_400_BAD_REQUEST = 400"
definition HTTP_401_UNAUTHORIZED :: nat where "HTTP_401_UNAUTHORIZED = 401"
definition HTTP_422_UNPROCESSABLE_ENTITY :: nat where "HTTP_422_UNPROCESSABLE_ENTITY = 422"
definition HTTP_500_INTERNAL_SERVER_ERROR :: nat where "HTTP_500_INTERNAL_SERVER_ERROR = 500"
definition HTTP_503_SERVICE_UNAVAILABLE :: nat where "HTTP_503_SERVICE_UNAVAILABLE = 503"

text \<open>
  What a handler ends with: a raised \<open>HTTPException\<close> with its status and
  detail, a returned \<open>JSONResponse\<close>, or an exception that no handler catches.
\<close>

datatype response = HTTPException nat string | JSONResponse nat | Unhandled py_error

text \<open>The status the caller sees; the server answers an uncaught exception with 500.\<close>

fun status_code :: "response \<Rightarrow> nat" where
  "status_code (HTTPException c d) = c"
| "status_code (JSONResponse c) = c"
| "status_code (Unhandled e) = HTTP_500_INTERNAL_SERVER_ERROR"

text \<open>The table and the two counters of app/metrics.py.\<close>

record app_state =
  app_db :: store
  webhook_requests_total :: "string \<Rightarrow> nat"
  messages_stored_total :: nat

definition inc_result :: "string \<Rightarrow> app_state \<Rightarrow> app_state" where
  "inc_result label st =
     st\<lparr>webhook_requests_total := (webhook_requests_total st)(label := Suc (webhook_requests_total st label))\<rparr>"

text \<open>
  \<open>json.loads(raw_body.decode("utf-8"))\<close> is a parameter \<open>loads\<close>: the body is
  not UTF-8 (\<open>UnicodeDecodeError\<close>, which the handler does not catch), or not
  JSON (\<open>JSONDecodeError\<close>), or a JSON value. How pydantic reads the fields of
  that value is the parameter \<open>read_fields\<close>: \<open>None\<close> when the value is not an object
  or a field has a type that is not read as a string.
\<close>

datatype 'j loads_result = Decode_error | JSONDecodeError | Loaded 'j

definition webhook_endpoint ::
  "(byte list \<Rightarrow> 'j loads_result) \<Rightarrow> ('j \<Rightarrow> raw_message option) \<Rightarrow> (string \<Rightarrow> bool) \<Rightarrow> string
     \<Rightarrow> string \<Rightarrow> byte list \<Rightarrow> string \<Rightarrow> app_state \<Rightarrow> response \<times> app_state" where
  "webhook_endpoint loads read_fields fromisoformat now webhook_secret raw_body x_signature st =
     (if webhook_secret = [] then
        (HTTPException HTTP_500_INTERNAL_SERVER_ERROR ''WEBHOOK_SECRET is not configured'', st)
      else case verify_signature webhook_secret raw_body x_signature of
        Inl e \<Rightarrow> (Unhandled e, st)
      | Inr False \<Rightarrow>
          (HTTPException HTTP_401_UNAUTHORIZED ''Invalid signature'', inc_result ''invalid_signature'' st)
      | Inr True \<Rightarrow>
          (case loads raw_body of
             Decode_error \<Rightarrow> (Unhandled UnicodeDecodeError, st)
           | JSONDecodeError \<Rightarrow>
               (HTTPException HTTP_400_BAD_REQUEST ''Invalid JSON payload'', inc_result ''invalid_json'' st)
           | Loaded body_json \<Rightarrow>
               (case (case read_fields body_json of
                        None \<Rightarrow> None
                      | Some raw \<Rightarrow> (case parse_obj fromisoformat raw of
                                       Inl errors \<Rightarrow> None | Inr payload \<Rightarrow> Some payload)) of
                  None \<Rightarrow>
                    (HTTPException HTTP_422_UNPROCESSABLE_ENTITY ''Invalid payload schema'',
                     inc_result ''invalid_payload'' st)
                | Some payload \<Rightarrow>
                    (let (created, db') = insert_message_idempotent now payload (app_db st);
                         st1 = inc_result ''ok'' (st\<lparr>app_db := db'\<rparr>);
                         st2 = (if created
                                then st1\<lparr>messages_stored_total := Suc (messages_stored_total st1)\<rparr>
                                else st1)
                     in (JSONResponse HTTP_200_OK, st2)))))"

text \<open>
  \<open>health_ready\<close>. The table of the model can always be read, so the branch
  for a failing \<open>get_stats\<close> has no counterpart.
\<close>

definition health_ready :: "string \<Rightarrow> app_state \<Rightarrow> response" where
  "health_ready webhook_secret st =
     (if webhook_secret = [] then
        HTTPException HTTP_503_SERVICE_UNAVAILABLE ''WEBHOOK_SECRET is not configured''
      else (let data = get_stats (app_db st) in JSONResponse HTTP_200_OK))"

subsection \<open>Example data\<close>

text \<open>Three stored rows and two payloads, the first with the id of a stored row.\<close>

definition row_m1 :: row where
  "row_m1 = \<lparr>message_id = ''m1'', from_msisdn = ''+919876543210'', to_msisdn = ''+14155550100'',
             ts = ''2025-01-15T10:00:00Z'', text_col = Some ''Hello'', created_at = ''2025-01-15 10:00:01''\<rparr>"

definition row_m2 :: row where
  "row_m2 = \<lparr>message_id = ''m2'', from_msisdn = ''+11111111111'', to_msisdn = ''+14155550100'',
             ts = ''2025-01-15T09:00:00Z'', text_col = Some ''Search me'', created_at = ''2025-01-15 10:00:02''\<rparr>"

definition row_m3 :: row where
  "row_m3 = \<lparr>message_id = ''m3'', from_msisdn = ''+919876543210'', to_msisdn = ''+14155550100'',
             ts = ''2025-01-15T10:00:00Z'', text_col = None, created_at = ''2025-01-15 10:00:03''\<rparr>"

definition example_db :: store where
  "example_db = [row_m1, row_m2, row_m3]"

definition msg_m1_again :: MessageIn where
  "msg_m1_again = \<lparr>m_message_id = ''m1'', m_from = ''+11111111111'', m_to = ''+14155550100'',
                   m_ts = ''2026-02-02T00:00:00Z'', m_text = Some ''Changed''\<rparr>"

definition msg_m4 :: MessageIn where
  "msg_m4 = \<lparr>m_message_id = ''m4'', m_from = ''+11111111111'', m_to = ''+14155550100'',
                   m_ts = ''2026-02-02T00:00:00Z'', m_text = None\<rparr>"

text \<open>
  The case-sensitive substring test of the specification, Python's \<open>q in text\<close>,
  as tests/test_app.py applies it to the items of a \<open>q\<close> search. It is what the
  listing is compared with, not part of the program.
\<close>

fun substring :: "string \<Rightarrow> string \<Rightarrow> bool" where
  "substring q [] = (q = [])"
| "substring q (c # cs) = (take (length q) (c # cs) = q \<or> substring q cs)"

text \<open>
  A payload that validates, and a stand-in for \<open>datetime.fromisoformat\<close> that
  accepts the one string the example needs.
\<close>

definition raw_ok :: raw_message where
  "raw_ok = \<lparr>raw_message_id = Str ''m1'', raw_from = Str ''+919876543210'',
              raw_to = Str ''+14155550100'', raw_ts = Str ''2025-01-15T10:00:00Z'',
              raw_text = Str ''Hello''\<rparr>"

text \<open>
  The E.164 format in the words of the specification: a plus sign followed by
  2 to 15 digits, the first of them from 1 to 9. It is what the validators are
  compared with, not part of the program.
\<close>

definition is_e164 :: "string \<Rightarrow> bool" where
  "is_e164 v =
     (case v of
        p # d # rest \<Rightarrow>
          p = CHR ''+'' \<and> CHR ''1'' \<le> d \<and> d \<le> CHR ''9''
          \<and> 1 \<le> length rest \<and> length rest \<le> 14
          \<and> list_all (\<lambda>c. CHR ''0'' \<le> c \<and> c \<le> CHR ''9'') rest
      | _ \<Rightarrow> False)"

definition example_fromisoformat :: "string \<Rightarrow> bool" where
  "example_fromisoformat s = (s = ''2025-01-15T10:00:00+00:00'')"

definition state0 :: app_state where
  "state0 = \<lparr>app_db = [], webhook_requests_total = (\<lambda>label. 0), messages_stored_total = 0\<rparr>"

section \<open>Properties\<close>

lemmas example_defs = example_db_def row_m1_def row_m2_def row_m3_def msg_m1_again_def msg_m4_def

subsection \<open>Idempotent insert\<close>



subsection \<open>Facts about the query primitives\<close>

text \<open>The primary key: an insert keeps the message ids of the table distinct.\<close>

lemma insert_message_idempotent_ids_distinct:
  "distinct (map message_id db) \<Longrightarrow> distinct (map message_id (snd (insert_message_idempotent now msg db)))"
  by (auto simp: insert_message_idempotent_def sql_insert_def)

lemma limit_offset_map: "map f (limit_offset l off xs) = limit_offset l off (map f xs)"
  by (simp add: limit_offset_def Let_def take_map drop_map)

lemma limit_offset_sorted_wrt: "sorted_wrt R xs \<Longrightarrow> sorted_wrt R (limit_offset l off xs)"
  by (simp add: limit_offset_def Let_def sorted_wrt_take sorted_wrt_drop)


lemma limit_offset_length: "0 \<le> l \<Longrightarrow> length (limit_offset l off xs) \<le> nat l"
  by (simp add: limit_offset_def Let_def)

lemma order_by_ts_id_sorted: "sorted (map (\<lambda>r. (ts r, message_id r)) (order_by_ts_id rows))"
  by (simp add: order_by_ts_id_def)


lemma order_by_ts_id_set: "set (order_by_ts_id rows) = set rows"
  by (simp add: order_by_ts_id_def)

lemma mset_eq_ids_distinct:
  assumes "mset ys = mset xs" and "distinct (map message_id xs)"
  shows "distinct (map message_id ys)"
proof -
  have "mset (map message_id ys) = mset (map message_id xs)"
    using assms(1) by simp
  then have "distinct (map message_id ys) = distinct (map message_id xs)"
    by (rule mset_eq_imp_distinct_iff)
  then show ?thesis using assms(2) by simp
qed


lemma filter_key_singleton:
  assumes "distinct (map g zs)" and "k \<in> set zs" and "\<forall>x. P x \<longrightarrow> g x = g k" and "P k"
  shows "filter P zs = [k]"
  using assms(1,2)
proof (induction zs)
  case Nil
  then show ?case by simp
next
  case (Cons z zs)
  show ?case
  proof (cases "z = k")
    case True
    have "\<not> P x" if "x \<in> set zs" for x
    proof
      assume "P x"
      then have "g x = g k" using assms(3) by blast
      moreover have "g x \<in> g ` set zs" using that by blast
      moreover have "g k \<notin> g ` set zs" using Cons.prems(1) True by simp
      ultimately show False by simp
    qed
    then have "filter P zs = []" by (simp add: filter_empty_conv)
    then show ?thesis using True assms(4) by simp
  next
    case False
    then have k: "k \<in> set zs" using Cons.prems(2) by simp
    have "\<not> P z"
    proof
      assume "P z"
      then have "g z = g k" using assms(3) by blast
      moreover have "g z \<notin> g ` set zs" using Cons.prems(1) by simp
      moreover have "g k \<in> g ` set zs" using k by blast
      ultimately show False by simp
    qed
    moreover have "distinct (map g zs)" using Cons.prems(1) by simp
    then have "filter P zs = [k]" using k by (rule Cons.IH)
    ultimately show ?thesis by simp
  qed
qed

lemma order_by_ts_id_unique:
  assumes d: "distinct (map message_id xs)" and m: "mset ys = mset xs"
  shows "order_by_ts_id ys = order_by_ts_id xs"
  unfolding order_by_ts_id_def
proof (rule properties_for_sort_key)
  let ?k = "\<lambda>r. (ts r, message_id r)"
  show "mset (sort_key ?k xs) = mset ys" using m by simp
  show "sorted (map ?k (sort_key ?k xs))" by simp
  fix k assume "k \<in> set (sort_key ?k xs)"
  have dx: "distinct (map message_id (sort_key ?k xs))"
    by (rule mset_eq_ids_distinct [OF mset_sort d])
  have dy: "distinct (map message_id ys)"
    using m d by (rule mset_eq_ids_distinct)
  show "filter (\<lambda>x. ?k k = ?k x) (sort_key ?k xs) = filter (\<lambda>x. ?k k = ?k x) ys"
  proof -
    have kx: "k \<in> set (sort_key ?k xs)" by fact
    have "set ys = set xs" using m by (rule mset_eq_setD)
    then have ky: "k \<in> set ys" using kx by simp
    have "filter (\<lambda>x. ?k k = ?k x) (sort_key ?k xs) = [k]"
      by (rule filter_key_singleton [OF dx kx]) simp_all
    moreover have "filter (\<lambda>x. ?k k = ?k x) ys = [k]"
      by (rule filter_key_singleton [OF dy ky]) simp_all
    ultimately show ?thesis by simp
  qed
qed


lemma item_key_of_row:
  "(\<lambda>i. (item_ts i, item_message_id i)) \<circ> to_item = (\<lambda>r. (ts r, message_id r))"
  by (rule ext) (simp add: to_item_def)


lemma lex_pair_le:
  fixes a c b d :: string
  assumes "(a, b) \<le> (c, d)"
  shows "a < c \<or> (a = c \<and> b \<le> d)"
proof (cases "a < c")
  case True
  then show ?thesis by simp
next
  case False
  from assms have "a \<le> c \<and> b \<le> d"
    using False by (simp add: less_eq_prod_def)
  moreover from this have "a = c"
    using False order_le_imp_less_or_eq by blast
  ultimately show ?thesis by simp
qed


lemma top_senders_length: "length (top_senders db) \<le> 10"
  using limit_offset_length [of 10 0] by (simp add: top_senders_def)

lemma top_senders_sorted: "sorted_wrt (\<lambda>a b. cnt b \<le> cnt a) (top_senders db)"
proof -
  have "sorted (map (\<lambda>g. - cnt g) (sort_key (\<lambda>g. - cnt g) (group_by_sender db)))"
    by simp
  then have "sorted_wrt (\<lambda>a b. cnt b \<le> cnt a) (sort_key (\<lambda>g. - cnt g) (group_by_sender db))"
    by (simp add: sorted_wrt_map)
  then show ?thesis
    unfolding top_senders_def by (rule limit_offset_sorted_wrt)
qed


text \<open>
  The scan of the table either fails, when the test of some row fails, or
  returns the rows that pass.
\<close>

lemma base_query_eq:
  "base_query cs db =
     (if \<exists>r \<in> set db. where_row cs r = Inl OperationalError then Inl OperationalError
      else Inr (passing cs db))"
proof (induction db)
  case Nil
  show ?case by (simp add: passing_def)
next
  case (Cons r rows)
  show ?case
  proof (cases "where_row cs r")
    case (Inl e)
    then have "where_row cs r = Inl OperationalError"
      by (cases e) simp
    then show ?thesis by simp
  next
    case (Inr b)
    then show ?thesis
      using Cons.IH by (simp add: passing_def)
  qed
qed

lemma passing_ids_distinct:
  "distinct (map message_id db) \<Longrightarrow> distinct (map message_id (passing cs db))"
  by (simp add: passing_def distinct_map_filter)

lemma passing_mset: "mset db' = mset db \<Longrightarrow> mset (passing cs db') = mset (passing cs db)"
  by (simp add: passing_def)

lemma list_messages_eq:
  "list_messages l off f s q db =
     (if \<exists>r \<in> set db. where_row (where_clauses f s q) r = Inl OperationalError
      then Inl OperationalError
      else Inr (map to_item (limit_offset l off (order_by_ts_id (passing (where_clauses f s q) db))),
                int (length (passing (where_clauses f s q) db))))"
  by (simp add: list_messages_def Let_def base_query_eq)

lemma returned_items_eq:
  "returned_items (list_messages l off f s q db) =
     (if \<exists>r \<in> set db. where_row (where_clauses f s q) r = Inl OperationalError then []
      else map to_item (limit_offset l off (order_by_ts_id (passing (where_clauses f s q) db))))"
  by (simp add: list_messages_eq returned_items_def)

lemma sorted_map_key: "sorted (map k xs) \<Longrightarrow> sorted_wrt (\<lambda>a b. k a \<le> k b) xs"
  by (simp add: sorted_wrt_map)

subsection \<open>Listing: order, pages, totals, empty filters\<close>

text \<open>
  C4. Whatever the filters, the limit and the offset, the items that
  \<open>list_messages\<close> returns are in ascending order of (ts, message_id); and the
  answer depends only on the rows the table holds, not on the order in which
  they were inserted, so two calls with the same arguments on the same table
  contents return the same item sequence and total.
\<close>

theorem list_messages_sorted_deterministic:
  "sorted_wrt (\<lambda>a b. item_ts a < item_ts b \<or> (item_ts a = item_ts b \<and> item_message_id a \<le> item_message_id b))
     (returned_items (list_messages l off f s q db))
   \<and> (distinct (map message_id db) \<and> mset db' = mset db \<longrightarrow>
        list_messages l off f s q db' = list_messages l off f s q db)"
proof (intro conjI impI)
  let ?cs = "where_clauses f s q"
  let ?ord = "\<lambda>a b. item_ts a < item_ts b \<or> (item_ts a = item_ts b \<and> item_message_id a \<le> item_message_id b)"
  have "sorted (map (\<lambda>r. (ts r, message_id r)) (order_by_ts_id (passing ?cs db)))"
    by (rule order_by_ts_id_sorted)
  then have "sorted (limit_offset l off (map (\<lambda>r. (ts r, message_id r)) (order_by_ts_id (passing ?cs db))))"
    by (rule limit_offset_sorted_wrt)
  then have "sorted (map (\<lambda>i. (item_ts i, item_message_id i))
                 (map to_item (limit_offset l off (order_by_ts_id (passing ?cs db)))))"
    by (simp add: item_key_of_row limit_offset_map del: sorted_wrt_map)
  then have "sorted_wrt (\<lambda>a b. (item_ts a, item_message_id a) \<le> (item_ts b, item_message_id b))
     (map to_item (limit_offset l off (order_by_ts_id (passing ?cs db))))"
    by (rule sorted_map_key)
  then have "sorted_wrt ?ord (map to_item (limit_offset l off (order_by_ts_id (passing ?cs db))))"
    by (rule sorted_wrt_mono_rel [rotated]) (rule lex_pair_le)
  then show "sorted_wrt ?ord (returned_items (list_messages l off f s q db))"
    by (simp add: returned_items_eq)
next
  assume a: "distinct (map message_id db) \<and> mset db' = mset db"
  let ?cs = "where_clauses f s q"
  from a have a1: "distinct (map message_id db)" and a2: "mset db' = mset db"
    by blast+
  have st: "set db' = set db"
    using a2 by (rule mset_eq_setD)
  have d: "distinct (map message_id (passing ?cs db))"
    using a1 by (rule passing_ids_distinct)
  have m: "mset (passing ?cs db') = mset (passing ?cs db)"
    using a2 by (rule passing_mset)
  have o: "order_by_ts_id (passing ?cs db') = order_by_ts_id (passing ?cs db)"
    by (rule order_by_ts_id_unique [OF d m])
  have n: "length (passing ?cs db') = length (passing ?cs db)"
    using m by (rule mset_eq_length)
  show "list_messages l off f s q db' = list_messages l off f s q db"
    unfolding list_messages_eq st o n by (rule refl)
qed

theorem list_messages_sorted_deterministic_witness:
  "distinct (map message_id example_db) \<and> mset [row_m3, row_m2, row_m1] = mset example_db
   \<and> list_messages 2 1 None None None [row_m3, row_m2, row_m1] = list_messages 2 1 None None None example_db"
  using list_messages_sorted_deterministic [of 2 1 None None None example_db "[row_m3, row_m2, row_m1]"]
  by (simp add: example_defs)



text \<open>
  C10. An empty string given as \<open>from_filter\<close>, \<open>since\<close> or \<open>q\<close> gives the same
  items and total as \<open>None\<close> in that place.
\<close>

theorem list_messages_empty_filter_is_absent:
  "list_messages l off (Some []) s q db = list_messages l off None s q db
   \<and> list_messages l off f (Some []) q db = list_messages l off f None q db
   \<and> list_messages l off f s (Some []) db = list_messages l off f s None db"
  by (simp add: list_messages_def where_clauses_def)

text \<open>
  A text without NUL characters that contains \<open>q\<close> matches the pattern
  \<open>%q%\<close>, whatever characters \<open>q\<close> has: among such texts the rows that the
  substring test selects are among those the query returns.
\<close>

lemma pattern_compare_percent_skip: "pattern_compare (CHR ''%'' # p) s \<Longrightarrow> pattern_compare (CHR ''%'' # p) (pre @ s)"
  by (induction pre) simp_all

lemma pattern_compare_percent_all: "pattern_compare ''%'' s"
  using pattern_compare_percent_skip [of "[]" "[]" s] by simp

lemma pattern_compare_percent_weaken: "pattern_compare p s \<Longrightarrow> pattern_compare (CHR ''%'' # p) s"
  by simp

lemma pattern_compare_literal: "pattern_compare (q @ ''%'') (q @ r)"
proof (induction q)
  case Nil
  show ?case using pattern_compare_percent_all by simp
next
  case (Cons p ps)
  show ?case
  proof (cases "p = CHR ''%''")
    case True
    have "pattern_compare (CHR ''%'' # ps @ ''%'') (ps @ r)"
      using Cons.IH by (rule pattern_compare_percent_weaken)
    then have "pattern_compare (CHR ''%'' # ps @ ''%'') ([CHR ''%''] @ ps @ r)"
      by (rule pattern_compare_percent_skip)
    then show ?thesis using True by simp
  next
    case False
    then show ?thesis using Cons.IH by simp
  qed
qed

lemma substring_split: "substring q t \<Longrightarrow> \<exists>pre r. t = pre @ q @ r"
proof (induction t)
  case Nil
  then show ?case by simp
next
  case (Cons c cs)
  from Cons.prems have "take (length q) (c # cs) = q \<or> substring q cs"
    by simp
  then show ?case
  proof
    assume "take (length q) (c # cs) = q"
    then have "c # cs = [] @ q @ drop (length q) (c # cs)"
      by (metis append_Nil append_take_drop_id)
    then show ?thesis by blast
  next
    assume "substring q cs"
    then obtain pre r where "cs = pre @ q @ r"
      using Cons.IH by blast
    then have "c # cs = (c # pre) @ q @ r" by simp
    then show ?thesis by blast
  qed
qed


lemma c_string_id: "CHR 0x00 \<notin> set s \<Longrightarrow> c_string s = s"
  unfolding c_string_def by (rule takeWhile_eq_all_conv [THEN iffD2]) blast

lemma sql_like_of_substring:
  assumes "substring q t" and "CHR 0x00 \<notin> set t"
  shows "sql_like (''%'' @ q @ ''%'') t"
proof -
  from assms(1) obtain pre r where t: "t = pre @ q @ r"
    using substring_split by blast
  then have "CHR 0x00 \<notin> set (''%'' @ q @ ''%'')"
    using assms(2) by simp
  then have c: "c_string (''%'' @ q @ ''%'') = ''%'' @ q @ ''%''"
    by (rule c_string_id)
  have "pattern_compare (CHR ''%'' # q @ ''%'') (q @ r)"
    using pattern_compare_literal by (rule pattern_compare_percent_weaken)
  then have "pattern_compare (CHR ''%'' # q @ ''%'') (pre @ q @ r)"
    by (rule pattern_compare_percent_skip)
  then show ?thesis
    unfolding sql_like_def c c_string_id [OF assms(2)] using t by simp
qed

text \<open>
  C3. The \<open>q\<close> filter of \<open>list_messages\<close> is the \<open>LIKE\<close> pattern \<open>%q%\<close>, which
  is not the case-sensitive substring test: the search \<open>search\<close> returns (and
  counts) the row whose text is \<open>Search me\<close>, and the search \<open>H_l%o\<close> returns
  the row whose text is \<open>Hello\<close>, though neither text contains the search
  string.
\<close>

theorem list_messages_q_matches_without_substring:
  "list_messages 50 0 None None (Some ''search'') [row_m2] = Inr ([to_item row_m2], 1)
   \<and> \<not> substring ''search'' ''Search me''
   \<and> list_messages 50 0 None None (Some ''H_l%o'') [row_m1] = Inr ([to_item row_m1], 1)
   \<and> \<not> substring ''H_l%o'' ''Hello''"
proof -
  have m: "sql_like ''%search%'' ''Search me''" "sql_like ''%H_l%o%'' ''Hello''"
    by code_simp+
  have n: "\<not> substring ''search'' ''Search me''" "\<not> substring ''H_l%o'' ''Hello''"
    by code_simp+
  have u: "\<not> 50000 < utf8_length ''%search%''" "\<not> 50000 < utf8_length ''%H_l%o%''"
    by (simp_all add: utf8_length_def)
  have "list_messages 50 0 None None (Some ''search'') [row_m2] = Inr ([to_item row_m2], 1)"
    using m(1) u(1)
    by (simp add: list_messages_def where_clauses_def like_func_def order_by_ts_id_def
        limit_offset_def row_m2_def)
  moreover have "list_messages 50 0 None None (Some ''H_l%o'') [row_m1] = Inr ([to_item row_m1], 1)"
    using m(2) u(2)
    by (simp add: list_messages_def where_clauses_def like_func_def order_by_ts_id_def
        limit_offset_def row_m1_def)
  ultimately show ?thesis using n by simp
qed

text \<open>The total of a call does not depend on the limit and the offset.\<close>

lemma list_messages_total_same_for_every_page:
  "map_sum id snd (list_messages l off f s q db) = map_sum id snd (list_messages l' off' f s q db)"
  by (simp add: list_messages_eq)

text \<open>
  C8. The total that \<open>list_messages\<close> returns counts the rows that match the
  \<open>LIKE\<close> pattern built from \<open>q\<close>, not the rows whose text contains \<open>q\<close>: for
  the sender \<open>+11111111111\<close> and the search \<open>search\<close> on the example table the
  total is 1, and no row of that sender has a text that contains \<open>search\<close>.
\<close>

theorem list_messages_total_counts_like_matches:
  "list_messages 1 0 (Some ''+11111111111'') None (Some ''search'') example_db
     = Inr ([to_item row_m2], 1)
   \<and> length (filter (\<lambda>r. from_msisdn r = ''+11111111111''
                        \<and> (case text_col r of None \<Rightarrow> False | Some t \<Rightarrow> substring ''search'' t))
               example_db) = 0"
proof -
  have m: "sql_like ''%search%'' ''Search me''"
    by code_simp
  have n: "\<not> substring ''search'' ''Search me''"
    by code_simp
  have u: "\<not> 50000 < utf8_length ''%search%''"
    by (simp add: utf8_length_def)
  have "list_messages 1 0 (Some ''+11111111111'') None (Some ''search'') example_db
     = Inr ([to_item row_m2], 1)"
    using m u
    by (simp add: list_messages_def where_clauses_def like_func_def order_by_ts_id_def
        limit_offset_def example_defs)
  moreover have "length (filter (\<lambda>r. from_msisdn r = ''+11111111111''
                        \<and> (case text_col r of None \<Rightarrow> False | Some t \<Rightarrow> substring ''search'' t))
               example_db) = 0"
    using n by (simp add: example_defs)
  ultimately show ?thesis by simp
qed

subsection \<open>Statistics\<close>

text \<open>
  C9. On the empty table \<open>get_stats\<close> returns zero messages, zero senders, no
  sender rows and no first or last timestamp; on every table
  \<open>messages_per_sender\<close> has at most ten entries, in descending order of
  their counts.
\<close>

theorem get_stats_empty_and_top_ten:
  "get_stats [] = \<lparr>total_messages = 0, senders_count = 0, messages_per_sender = [],
                    first_message_ts = None, last_message_ts = None\<rparr>
   \<and> length (messages_per_sender (get_stats db)) \<le> 10
   \<and> sorted_wrt (\<lambda>a b. cnt b \<le> cnt a) (messages_per_sender (get_stats db))"
proof (intro conjI)
  show "get_stats [] = \<lparr>total_messages = 0, senders_count = 0, messages_per_sender = [],
                    first_message_ts = None, last_message_ts = None\<rparr>"
    by (simp add: get_stats_def top_senders_def group_by_sender_def limit_offset_def
        order_by_ts_id_def fetchone_def)
  show "length (messages_per_sender (get_stats db)) \<le> 10"
    by (simp add: get_stats_def Let_def top_senders_length)
  show "sorted_wrt (\<lambda>a b. cnt b \<le> cnt a) (messages_per_sender (get_stats db))"
    by (simp add: get_stats_def Let_def top_senders_sorted)
qed

subsection \<open>Payload validation\<close>

text \<open>The pattern as a language: what \<open>E164_REGEX.match\<close> accepts.\<close>

lemma E164_REGEX_match_Cons:
  "E164_REGEX_match (p # d # rest) \<longleftrightarrow>
     p = CHR ''+'' \<and> CHR ''1'' \<le> d \<and> d \<le> CHR ''9''
     \<and> 1 \<le> length (takeWhile is_digit rest) \<and> length (takeWhile is_digit rest) \<le> 14
     \<and> (dropWhile is_digit rest = [] \<or> dropWhile is_digit rest = [CHR 0x0A])"
  unfolding E164_REGEX_match_def Let_def list.case by (rule refl)

lemma E164_REGEX_match_short: "\<not> E164_REGEX_match []" "\<not> E164_REGEX_match [p]"
  unfolding E164_REGEX_match_def list.case by (rule notI, assumption)+

lemma digits_then_tail:
  assumes "\<forall>c \<in> set ds. is_digit c" and "sfx = [] \<or> sfx = [CHR 0x0A]"
  shows "takeWhile is_digit (ds @ sfx) = ds" and "dropWhile is_digit (ds @ sfx) = sfx"
proof -
  have nd: "\<not> is_digit (CHR 0x0A)"
    unfolding is_digit_def by simp
  have t: "takeWhile is_digit sfx = []" and d: "dropWhile is_digit sfx = sfx"
    using assms(2) nd by auto
  have "takeWhile is_digit (ds @ sfx) = ds @ takeWhile is_digit sfx"
    using assms(1) by (intro takeWhile_append2) blast
  then show "takeWhile is_digit (ds @ sfx) = ds" using t by simp
  have "dropWhile is_digit (ds @ sfx) = dropWhile is_digit sfx"
    using assms(1) by (intro dropWhile_append2) blast
  then show "dropWhile is_digit (ds @ sfx) = sfx" using d by simp
qed

lemma E164_REGEX_match_iff:
  "E164_REGEX_match v \<longleftrightarrow>
     (\<exists>d ds sfx. v = CHR ''+'' # d # ds @ sfx \<and> CHR ''1'' \<le> d \<and> d \<le> CHR ''9''
        \<and> 1 \<le> length ds \<and> length ds \<le> 14 \<and> (\<forall>c \<in> set ds. is_digit c)
        \<and> (sfx = [] \<or> sfx = [CHR 0x0A]))"
  (is "?L \<longleftrightarrow> ?R")
proof
  assume L: ?L
  obtain p d rest where v: "v = p # d # rest"
  proof (cases v)
    case Nil
    then show ?thesis using L E164_REGEX_match_short(1) by blast
  next
    case (Cons p v')
    show ?thesis
    proof (cases v')
      case Nil
      then show ?thesis using L Cons E164_REGEX_match_short(2) by blast
    next
      case (Cons d rest)
      then show ?thesis using \<open>v = p # v'\<close> that by blast
    qed
  qed
  let ?ds = "takeWhile is_digit rest" and ?sfx = "dropWhile is_digit rest"
  from L have m: "p = CHR ''+'' \<and> CHR ''1'' \<le> d \<and> d \<le> CHR ''9'' \<and> 1 \<le> length ?ds \<and> length ?ds \<le> 14
    \<and> (?sfx = [] \<or> ?sfx = [CHR 0x0A])"
    unfolding v E164_REGEX_match_Cons .
  have r: "rest = ?ds @ ?sfx" by simp
  have "\<forall>c \<in> set ?ds. is_digit c" by (blast dest: set_takeWhileD)
  then have "v = CHR ''+'' # d # ?ds @ ?sfx \<and> CHR ''1'' \<le> d \<and> d \<le> CHR ''9''
        \<and> 1 \<le> length ?ds \<and> length ?ds \<le> 14 \<and> (\<forall>c \<in> set ?ds. is_digit c)
        \<and> (?sfx = [] \<or> ?sfx = [CHR 0x0A])"
    using m v r by blast
  then show ?R by blast
next
  assume ?R
  then obtain d ds sfx where v: "v = CHR ''+'' # d # ds @ sfx" and d: "CHR ''1'' \<le> d" "d \<le> CHR ''9''"
    and l: "1 \<le> length ds" "length ds \<le> 14" and ds: "\<forall>c \<in> set ds. is_digit c"
    and sfx: "sfx = [] \<or> sfx = [CHR 0x0A]"
    by blast
  show ?L
    unfolding v E164_REGEX_match_Cons digits_then_tail [OF ds sfx]
    using d l sfx by blast
qed

lemma required_field_rejects:
  "v = Str s \<Longrightarrow> validator s = Inl msg \<Longrightarrow> required_field name validator v \<noteq> []"
  by (simp add: required_field_def)

lemma parse_obj_errors:
  assumes "required_field ''message_id'' validate_message_id (raw_message_id raw)
          @ required_field ''from'' validate_from (raw_from raw)
          @ required_field ''to'' validate_to (raw_to raw)
          @ required_field ''ts'' (validate_ts fromisoformat) (raw_ts raw)
          @ (case validate_text (optional_field (raw_text raw)) of
               Inl msg \<Rightarrow> [(''text'', msg)] | Inr _ \<Rightarrow> []) \<noteq> []"
  shows "isl (parse_obj fromisoformat raw)"
  using assms unfolding parse_obj_def Let_def
  by (auto split: list.splits field.splits)

lemma validate_text_ok:
  "x = None \<or> (\<exists>t. x = Some t \<and> length t \<le> 4096) \<Longrightarrow> validate_text x = Inr x"
  by (auto simp: validate_text_def)

lemma parse_obj_Inr_fields:
  assumes "parse_obj fromisoformat raw = Inr msg"
  shows "required_field ''message_id'' validate_message_id (raw_message_id raw)
          @ required_field ''from'' validate_from (raw_from raw)
          @ required_field ''to'' validate_to (raw_to raw)
          @ required_field ''ts'' (validate_ts fromisoformat) (raw_ts raw) = []"
    and "\<exists>i f t s. raw_message_id raw = Str i \<and> raw_from raw = Str f \<and> raw_to raw = Str t
           \<and> raw_ts raw = Str s
           \<and> msg = \<lparr>m_message_id = i, m_from = f, m_to = t, m_ts = s,
                     m_text = optional_field (raw_text raw)\<rparr>"
  using assms unfolding parse_obj_def Let_def
  by (auto split: list.splits field.splits sum.splits)

lemma parse_obj_replace_text:
  assumes "parse_obj fromisoformat raw = Inr msg"
    and "validate_text (optional_field x) = Inr (optional_field x)"
  shows "parse_obj fromisoformat (raw\<lparr>raw_text := x\<rparr>) = Inr (msg\<lparr>m_text := optional_field x\<rparr>)"
proof -
  from parse_obj_Inr_fields(2) [OF assms(1)] obtain i f t s where
    r: "raw_message_id raw = Str i" "raw_from raw = Str f" "raw_to raw = Str t" "raw_ts raw = Str s"
    and m: "msg = \<lparr>m_message_id = i, m_from = f, m_to = t, m_ts = s,
                   m_text = optional_field (raw_text raw)\<rparr>"
    by blast
  have e: "required_field ''message_id'' validate_message_id (raw_message_id raw)
          @ required_field ''from'' validate_from (raw_from raw)
          @ required_field ''to'' validate_to (raw_to raw)
          @ required_field ''ts'' (validate_ts fromisoformat) (raw_ts raw) = []"
    by (rule parse_obj_Inr_fields(1) [OF assms(1)])
  show ?thesis
    unfolding parse_obj_def Let_def
    using e r assms(2) by (simp add: m)
qed

text \<open>
  What \<open>MessageIn.parse_obj\<close> rejects and accepts. It raises a validation
  error for a payload whose \<open>from\<close> or \<open>to\<close> is outside the language of the
  pattern; whose \<open>ts\<close> does not end in Z or, with Z replaced by \<open>+00:00\<close>, is
  not accepted by \<open>datetime.fromisoformat\<close>; whose \<open>message_id\<close> is empty after
  \<open>strip\<close>; or whose text has 4097 characters. A payload that validates still
  validates when its text is replaced by a text of 4096 characters or by no
  text.
\<close>

lemma parse_obj_rejects_and_accepts:
  "((raw_from raw = Str v \<or> raw_to raw = Str v)
      \<and> \<not> (\<exists>d ds sfx. v = CHR ''+'' # d # ds @ sfx \<and> CHR ''1'' \<le> d \<and> d \<le> CHR ''9''
              \<and> 1 \<le> length ds \<and> length ds \<le> 14 \<and> (\<forall>c \<in> set ds. CHR ''0'' \<le> c \<and> c \<le> CHR ''9'')
              \<and> (sfx = [] \<or> sfx = [CHR 0x0A]))
      \<longrightarrow> isl (parse_obj fromisoformat raw))
   \<and> (raw_ts raw = Str v \<and> (v = [] \<or> last v \<noteq> CHR ''Z'' \<or> \<not> fromisoformat (replace_Z v))
      \<longrightarrow> isl (parse_obj fromisoformat raw))
   \<and> (raw_message_id raw = Str v \<and> strip v = [] \<longrightarrow> isl (parse_obj fromisoformat raw))
   \<and> (raw_text raw = Str v \<and> length v = 4097 \<longrightarrow> isl (parse_obj fromisoformat raw))
   \<and> (parse_obj fromisoformat raw = Inr msg
        \<and> (x = Missing \<or> x = Null \<or> (\<exists>t. x = Str t \<and> length t = 4096))
      \<longrightarrow> parse_obj fromisoformat (raw\<lparr>raw_text := x\<rparr>) = Inr (msg\<lparr>m_text := optional_field x\<rparr>))"
proof (intro conjI impI)
  assume a: "(raw_from raw = Str v \<or> raw_to raw = Str v)
      \<and> \<not> (\<exists>d ds sfx. v = CHR ''+'' # d # ds @ sfx \<and> CHR ''1'' \<le> d \<and> d \<le> CHR ''9''
              \<and> 1 \<le> length ds \<and> length ds \<le> 14 \<and> (\<forall>c \<in> set ds. CHR ''0'' \<le> c \<and> c \<le> CHR ''9'')
              \<and> (sfx = [] \<or> sfx = [CHR 0x0A]))"
  then have n: "\<not> E164_REGEX_match v"
    unfolding E164_REGEX_match_iff is_digit_def by blast
  from a have "raw_from raw = Str v \<or> raw_to raw = Str v" by blast
  then show "isl (parse_obj fromisoformat raw)"
  proof
    assume r: "raw_from raw = Str v"
    have "validate_from v = Inl ''from must be in E.164 format''"
      using n by (simp add: validate_from_def)
    then have "required_field ''from'' validate_from (raw_from raw) \<noteq> []"
      by (rule required_field_rejects [OF r])
    then show ?thesis by (intro parse_obj_errors) simp
  next
    assume r: "raw_to raw = Str v"
    have "validate_to v = Inl ''to must be in E.164 format''"
      using n by (simp add: validate_to_def)
    then have "required_field ''to'' validate_to (raw_to raw) \<noteq> []"
      by (rule required_field_rejects [OF r])
    then show ?thesis by (intro parse_obj_errors) simp
  qed
next
  assume a: "raw_ts raw = Str v \<and> (v = [] \<or> last v \<noteq> CHR ''Z'' \<or> \<not> fromisoformat (replace_Z v))"
  then have "validate_ts fromisoformat v = Inl ''ts must be ISO-8601 UTC with Z''"
    by (auto simp: validate_ts_def endswith_Z_def)
  moreover from a have "raw_ts raw = Str v" by blast
  ultimately have "required_field ''ts'' (validate_ts fromisoformat) (raw_ts raw) \<noteq> []"
    by (rule required_field_rejects [rotated])
  then show "isl (parse_obj fromisoformat raw)" by (intro parse_obj_errors) simp
next
  assume a: "raw_message_id raw = Str v \<and> strip v = []"
  then have "validate_message_id v = Inl ''message_id must be non-empty''"
    by (simp add: validate_message_id_def)
  moreover from a have "raw_message_id raw = Str v" by blast
  ultimately have "required_field ''message_id'' validate_message_id (raw_message_id raw) \<noteq> []"
    by (rule required_field_rejects [rotated])
  then show "isl (parse_obj fromisoformat raw)" by (intro parse_obj_errors) simp
next
  assume a: "raw_text raw = Str v \<and> length v = 4097"
  then have "validate_text (optional_field (raw_text raw)) = Inl ''text must be at most 4096 characters''"
    by (simp add: validate_text_def optional_field_def)
  then show "isl (parse_obj fromisoformat raw)" by (intro parse_obj_errors) simp
next
  assume a: "parse_obj fromisoformat raw = Inr msg
        \<and> (x = Missing \<or> x = Null \<or> (\<exists>t. x = Str t \<and> length t = 4096))"
  then have "optional_field x = None \<or> (\<exists>t. optional_field x = Some t \<and> length t \<le> 4096)"
    by (auto simp: optional_field_def)
  then have "validate_text (optional_field x) = Inr (optional_field x)"
    by (rule validate_text_ok)
  moreover from a have "parse_obj fromisoformat raw = Inr msg" by blast
  ultimately show "parse_obj fromisoformat (raw\<lparr>raw_text := x\<rparr>) = Inr (msg\<lparr>m_text := optional_field x\<rparr>)"
    by (rule parse_obj_replace_text [rotated])
qed

lemma parse_obj_rejects_and_accepts_example:
  "isl (parse_obj example_fromisoformat (raw_ok\<lparr>raw_from := Str ''12345''\<rparr>))
   \<and> isl (parse_obj example_fromisoformat (raw_ok\<lparr>raw_ts := Str ''2025-01-15 10:00:00''\<rparr>))
   \<and> isl (parse_obj example_fromisoformat (raw_ok\<lparr>raw_message_id := Str [CHR '' '', CHR 0x09]\<rparr>))
   \<and> isl (parse_obj example_fromisoformat (raw_ok\<lparr>raw_message_id := Null\<rparr>))
   \<and> isl (parse_obj example_fromisoformat (raw_ok\<lparr>raw_text := Str (replicate 4097 (CHR ''a''))\<rparr>))
   \<and> \<not> isl (parse_obj example_fromisoformat (raw_ok\<lparr>raw_text := Str (replicate 4096 (CHR ''a''))\<rparr>))
   \<and> \<not> isl (parse_obj example_fromisoformat (raw_ok\<lparr>raw_text := Null\<rparr>))"
proof -
  have ok: "parse_obj example_fromisoformat raw_ok =
      Inr \<lparr>m_message_id = ''m1'', m_from = ''+919876543210'', m_to = ''+14155550100'',
           m_ts = ''2025-01-15T10:00:00Z'', m_text = Some ''Hello''\<rparr>"
    by code_simp
  have sp: "strip [CHR '' '', CHR 0x09] = []"
    by code_simp
  have a: "isl (parse_obj example_fromisoformat (raw_ok\<lparr>raw_from := Str ''12345''\<rparr>))"
    using parse_obj_rejects_and_accepts
      [where raw = "raw_ok\<lparr>raw_from := Str ''12345''\<rparr>" and v = "''12345''"
         and fromisoformat = example_fromisoformat]
    by simp
  have b: "isl (parse_obj example_fromisoformat (raw_ok\<lparr>raw_ts := Str ''2025-01-15 10:00:00''\<rparr>))"
    using parse_obj_rejects_and_accepts
      [where raw = "raw_ok\<lparr>raw_ts := Str ''2025-01-15 10:00:00''\<rparr>" and v = "''2025-01-15 10:00:00''"
         and fromisoformat = example_fromisoformat]
    by simp
  have c: "isl (parse_obj example_fromisoformat (raw_ok\<lparr>raw_message_id := Str [CHR '' '', CHR 0x09]\<rparr>))"
    using sp parse_obj_rejects_and_accepts
      [where raw = "raw_ok\<lparr>raw_message_id := Str [CHR '' '', CHR 0x09]\<rparr>" and v = "[CHR '' '', CHR 0x09]"
         and fromisoformat = example_fromisoformat]
    by simp
  have c': "isl (parse_obj example_fromisoformat (raw_ok\<lparr>raw_message_id := Null\<rparr>))"
    by code_simp
  have d: "isl (parse_obj example_fromisoformat (raw_ok\<lparr>raw_text := Str (replicate 4097 (CHR ''a''))\<rparr>))"
    using parse_obj_rejects_and_accepts
      [where raw = "raw_ok\<lparr>raw_text := Str (replicate 4097 (CHR ''a''))\<rparr>"
         and v = "replicate 4097 (CHR ''a'')" and fromisoformat = example_fromisoformat]
    by simp
  have e: "\<not> isl (parse_obj example_fromisoformat (raw_ok\<lparr>raw_text := Str (replicate 4096 (CHR ''a''))\<rparr>))"
    using ok parse_obj_rejects_and_accepts
      [where raw = raw_ok and x = "Str (replicate 4096 (CHR ''a''))" and fromisoformat = example_fromisoformat]
    by simp
  have f: "\<not> isl (parse_obj example_fromisoformat (raw_ok\<lparr>raw_text := Null\<rparr>))"
    using ok parse_obj_rejects_and_accepts
      [where raw = raw_ok and x = Null and fromisoformat = example_fromisoformat]
    by simp
  show ?thesis using a b c c' d e f by blast
qed

text \<open>
  C6. \<open>MessageIn.parse_obj\<close> does not reject every \<open>from\<close> and \<open>to\<close> value that
  is not a plus sign followed by 2 to 15 digits: \<open>$\<close> in the pattern also
  matches before a newline that ends the string, so a number followed by one
  newline passes the validators of \<open>from\<close> and of \<open>to\<close>, and the payload is
  accepted with the newline kept.
\<close>

theorem parse_obj_accepts_number_with_newline:
  "parse_obj example_fromisoformat (raw_ok\<lparr>raw_from := Str (''+919876543210'' @ [CHR 0x0A])\<rparr>)
     = Inr \<lparr>m_message_id = ''m1'', m_from = ''+919876543210'' @ [CHR 0x0A], m_to = ''+14155550100'',
            m_ts = ''2025-01-15T10:00:00Z'', m_text = Some ''Hello''\<rparr>
   \<and> validate_to (''+14155550100'' @ [CHR 0x0A]) = Inr (''+14155550100'' @ [CHR 0x0A])
   \<and> \<not> is_e164 (''+919876543210'' @ [CHR 0x0A])
   \<and> \<not> is_e164 (''+14155550100'' @ [CHR 0x0A])"
  by code_simp

subsection \<open>Signature check\<close>

text \<open>
  The digest in hexadecimal has only the sixteen hexadecimal digits, so
  \<open>strip\<close> leaves it alone and \<open>compare_digest\<close> accepts it; and it
  determines the digest.
\<close>

lemma hex_digit_in: "hex_digit n \<in> set ''0123456789abcdef''"
proof -
  have "n mod 16 < length ''0123456789abcdef''" by simp
  then have "''0123456789abcdef'' ! (n mod 16) \<in> set ''0123456789abcdef''"
    by (rule nth_mem)
  then show ?thesis unfolding hex_digit_def .
qed

lemma hex_chars_plain:
  assumes "c \<in> set ''0123456789abcdef''"
  shows "is_ascii c" and "\<not> isspace c"
  using assms by (auto simp: is_ascii_def isspace_def)

lemma hexdigest_hex_chars:
  assumes "c \<in> set (hexdigest bs)"
  shows "c \<in> set ''0123456789abcdef''"
proof -
  from assms have "\<exists>n. c = hex_digit n"
    by (auto simp: hexdigest_def)
  then obtain n where "c = hex_digit n"
    by blast
  then show ?thesis
    using hex_digit_in by simp
qed

lemma hexdigest_chars:
  assumes "c \<in> set (hexdigest bs)"
  shows "is_ascii c" and "\<not> isspace c"
  using hexdigest_hex_chars [OF assms] by (rule hex_chars_plain)+

lemma dropWhile_none: "\<forall>c \<in> set s. \<not> P c \<Longrightarrow> dropWhile P s = s"
  by (cases s) simp_all

lemma strip_id:
  assumes "\<forall>c \<in> set s. \<not> isspace c"
  shows "strip s = s"
proof -
  have "dropWhile isspace s = s" using assms by (rule dropWhile_none)
  moreover have "dropWhile isspace (rev s) = rev s"
    using assms by (intro dropWhile_none) simp
  ultimately show ?thesis by (simp add: strip_def)
qed

lemma strip_surrounded:
  assumes l: "\<forall>c \<in> set ws1. isspace c" and r: "\<forall>c \<in> set ws2. isspace c"
  shows "strip (ws1 @ s @ ws2) = strip s"
proof -
  have 1: "dropWhile isspace (ws1 @ s @ ws2) = dropWhile isspace (s @ ws2)"
    using l by (intro dropWhile_append2) blast
  show ?thesis
  proof (cases "\<forall>c \<in> set s. isspace c")
    case True
    have L: "dropWhile isspace (ws1 @ s @ ws2) = []"
      using l r True by (simp add: dropWhile_eq_Nil_conv)
    have R: "dropWhile isspace s = []"
      using True by (simp add: dropWhile_eq_Nil_conv)
    show ?thesis unfolding strip_def L R by simp
  next
    case False
    then obtain x where x: "x \<in> set s" "\<not> isspace x" by blast
    then have 2: "dropWhile isspace (s @ ws2) = dropWhile isspace s @ ws2"
      by (rule dropWhile_append1)
    have "dropWhile isspace (rev ws2 @ rev (dropWhile isspace s)) = dropWhile isspace (rev (dropWhile isspace s))"
      using r by (intro dropWhile_append2) simp
    then show ?thesis using 1 2 by (simp add: strip_def)
  qed
qed

lemma hex_digit_inj:
  assumes "m < 16" "n < 16" "hex_digit m = hex_digit n"
  shows "m = n"
proof -
  have d: "distinct ''0123456789abcdef''" by simp
  have "''0123456789abcdef'' ! m = ''0123456789abcdef'' ! n"
    using assms by (simp add: hex_digit_def)
  moreover have "m < length ''0123456789abcdef''" "n < length ''0123456789abcdef''"
    using assms by simp_all
  ultimately show ?thesis
    using d nth_eq_iff_index_eq by blast
qed

lemma hex_byte_inj:
  fixes a b :: byte
  assumes "hex_digit (unat a div 16) = hex_digit (unat b div 16)"
    and "hex_digit (unat a mod 16) = hex_digit (unat b mod 16)"
  shows "a = b"
proof -
  have la: "unat a < 256" and lb: "unat b < 256"
    using unsigned_less [of a, where ?'a = nat] unsigned_less [of b, where ?'a = nat] by simp_all
  have "unat a div 16 = unat b div 16"
    using la lb assms(1) by (intro hex_digit_inj) simp_all
  moreover have "unat a mod 16 = unat b mod 16"
    using assms(2) by (intro hex_digit_inj) simp_all
  ultimately have "unat a = unat b"
    by (metis div_mult_mod_eq)
  then show ?thesis by (rule word_unat_eq_iff [THEN iffD2])
qed

lemma hexdigest_inj: "hexdigest a = hexdigest b \<Longrightarrow> a = b"
proof (induction a arbitrary: b)
  case Nil
  then show ?case by (cases b) (simp_all add: hexdigest_def)
next
  case (Cons x a)
  then obtain y b' where b: "b = y # b'"
    by (cases b) (simp_all add: hexdigest_def)
  from Cons.prems have h: "hex_digit (unat x div 16) = hex_digit (unat y div 16)"
    "hex_digit (unat x mod 16) = hex_digit (unat y mod 16)" "hexdigest a = hexdigest b'"
    unfolding b by (simp_all add: hexdigest_def)
  have "x = y" using h(1,2) by (rule hex_byte_inj)
  moreover have "a = b'" using h(3) by (rule Cons.IH)
  ultimately show ?case using b by simp
qed

lemma compare_digest_ascii:
  "list_all is_ascii a \<Longrightarrow> list_all is_ascii b \<Longrightarrow> compare_digest a b = Inr (a = b)"
  by (simp add: compare_digest_def)

lemma hexdigest_ascii: "list_all is_ascii (hexdigest d)"
  using hexdigest_chars(1) by (auto simp: list_all_iff)

lemma strip_hexdigest: "strip (hexdigest d) = hexdigest d"
  using hexdigest_chars(2) by (intro strip_id) blast

lemma verify_signature_hexdigest:
  "verify_signature s body (hexdigest d) = Inr (hmac_digest (encode_utf8 s) body = d)"
proof -
  have "compare_digest (hexdigest (hmac_digest (encode_utf8 s) body)) (hexdigest d)
          = Inr (hexdigest (hmac_digest (encode_utf8 s) body) = hexdigest d)"
    by (intro compare_digest_ascii hexdigest_ascii)
  moreover have "hexdigest (hmac_digest (encode_utf8 s) body) = hexdigest d
                   \<longleftrightarrow> hmac_digest (encode_utf8 s) body = d"
    using hexdigest_inj by blast
  ultimately show ?thesis
    by (simp add: verify_signature_def Let_def strip_hexdigest)
qed

lemma hmac_digest_zero_padded_key:
  assumes "length key < 64"
  shows "hmac_digest (key @ [0]) msg = hmac_digest key msg"
proof -
  have "64 - length key = Suc (64 - length (key @ [0]))"
    using assms by simp
  then have "(key @ [0]) @ replicate (64 - length (key @ [0])) 0 = key @ replicate (64 - length key) (0 :: byte)"
    by (simp add: replicate_app_Cons_same)
  moreover have "\<not> length (key @ [0]) > 64" "\<not> length key > 64"
    using assms by simp_all
  ultimately show ?thesis
    unfolding hmac_digest_def Let_def by presburger
qed

text \<open>
  C2 (as amended). \<open>verify_signature\<close> returns \<open>True\<close> for the hexadecimal
  HMAC-SHA256 of the body under the same secret, and whitespace around any
  signature does not change its result. Given the hexadecimal HMAC of the body
  under a second secret, it returns \<open>True\<close> exactly when the two secrets give
  the same digest, and \<open>False\<close> otherwise. For a signature that is ASCII after
  \<open>strip\<close> it returns a truth value: whether the stripped signature is the
  computed digest.
\<close>

theorem verify_signature_hmac:
  "verify_signature s body (hexdigest (hmac_digest (encode_utf8 s) body)) = Inr True
   \<and> ((\<forall>c \<in> set ws1 \<union> set ws2. isspace c) \<longrightarrow>
        verify_signature s body (ws1 @ sig @ ws2) = verify_signature s body sig)
   \<and> verify_signature s1 body (hexdigest (hmac_digest (encode_utf8 s2) body))
       = Inr (hmac_digest (encode_utf8 s1) body = hmac_digest (encode_utf8 s2) body)
   \<and> ((\<forall>c \<in> set (strip sig). is_ascii c) \<longrightarrow>
        verify_signature s body sig = Inr (strip sig = hexdigest (hmac_digest (encode_utf8 s) body)))"
proof (intro conjI impI)
  show "verify_signature s body (hexdigest (hmac_digest (encode_utf8 s) body)) = Inr True"
    by (simp add: verify_signature_hexdigest)
  show "verify_signature s1 body (hexdigest (hmac_digest (encode_utf8 s2) body))
       = Inr (hmac_digest (encode_utf8 s1) body = hmac_digest (encode_utf8 s2) body)"
    by (rule verify_signature_hexdigest)
next
  assume "\<forall>c \<in> set ws1 \<union> set ws2. isspace c"
  then have "strip (ws1 @ sig @ ws2) = strip sig"
    by (intro strip_surrounded) blast+
  then show "verify_signature s body (ws1 @ sig @ ws2) = verify_signature s body sig"
    by (simp add: verify_signature_def)
next
  assume "\<forall>c \<in> set (strip sig). is_ascii c"
  then have "list_all is_ascii (strip sig)"
    by (simp add: list_all_iff)
  then have "compare_digest (hexdigest (hmac_digest (encode_utf8 s) body)) (strip sig)
               = Inr (hexdigest (hmac_digest (encode_utf8 s) body) = strip sig)"
    by (intro compare_digest_ascii hexdigest_ascii)
  then show "verify_signature s body sig = Inr (strip sig = hexdigest (hmac_digest (encode_utf8 s) body))"
    by (auto simp: verify_signature_def Let_def)
qed

theorem verify_signature_hmac_witness:
  "verify_signature ''testsecret'' []
      ('' '' @ hexdigest (hmac_digest (encode_utf8 ''testsecret'') []) @ [CHR 0x0A]) = Inr True
   \<and> verify_signature ''testsecret'' [] ''not-a-signature'' = Inr False"
proof -
  have sp: "\<forall>c \<in> set '' '' \<union> set [CHR 0x0A]. isspace c"
    by (simp add: isspace_def)
  have "verify_signature ''testsecret'' []
      ('' '' @ hexdigest (hmac_digest (encode_utf8 ''testsecret'') []) @ [CHR 0x0A])
       = verify_signature ''testsecret'' [] (hexdigest (hmac_digest (encode_utf8 ''testsecret'') []))"
    using sp verify_signature_hmac [where s = "''testsecret''" and body = "[]"
                  and ?ws1.0 = "'' ''" and ?ws2.0 = "[CHR 0x0A]"
                  and sig = "hexdigest (hmac_digest (encode_utf8 ''testsecret'') [])"]
    by blast
  then have a: "verify_signature ''testsecret'' []
      ('' '' @ hexdigest (hmac_digest (encode_utf8 ''testsecret'') []) @ [CHR 0x0A]) = Inr True"
    using verify_signature_hmac [where s = "''testsecret''" and body = "[]"] by simp
  have st: "strip ''not-a-signature'' = ''not-a-signature''"
    by code_simp
  have asc: "\<forall>c \<in> set (strip ''not-a-signature''). is_ascii c"
    unfolding st by (simp add: is_ascii_def)
  have "CHR ''n'' \<notin> set (hexdigest (hmac_digest (encode_utf8 ''testsecret'') []))"
    using hexdigest_hex_chars [of "CHR ''n''"] by auto
  moreover have "CHR ''n'' \<in> set ''not-a-signature''"
    by simp
  ultimately have ne: "''not-a-signature'' \<noteq> hexdigest (hmac_digest (encode_utf8 ''testsecret'') [])"
    by metis
  have b: "verify_signature ''testsecret'' [] ''not-a-signature'' = Inr False"
    using asc ne verify_signature_hmac [where s = "''testsecret''" and body = "[]"
                     and sig = "''not-a-signature''"]
    by (simp add: st)
  show ?thesis using a b by simp
qed

text \<open>
  C2 as stated fails twice. Two secrets that differ give the same digest when
  one is the other followed by a NUL character, because HMAC fills a short key
  up with zero bytes: the signature made with the second secret is accepted
  under the first. And a signature with a character that is not ASCII makes
  \<open>compare_digest\<close> raise \<open>TypeError\<close> outside the \<open>try\<close>.
\<close>

theorem verify_signature_counterexample:
  "''a'' \<noteq> [CHR ''a'', CHR 0x00]
   \<and> verify_signature ''a'' [] (hexdigest (hmac_digest (encode_utf8 [CHR ''a'', CHR 0x00]) [])) = Inr True
   \<and> verify_signature ''a'' [] [CHR 0xE9] = Inl TypeError"
proof -
  have e: "encode_utf8 [CHR ''a'', CHR 0x00] = encode_utf8 ''a'' @ [0]"
    by (simp add: encode_utf8_def)
  have "length (encode_utf8 ''a'') < 64"
    by (simp add: encode_utf8_def)
  then have "hmac_digest (encode_utf8 ''a'' @ [0]) [] = hmac_digest (encode_utf8 ''a'') []"
    by (rule hmac_digest_zero_padded_key)
  then have a: "verify_signature ''a'' [] (hexdigest (hmac_digest (encode_utf8 [CHR ''a'', CHR 0x00]) [])) = Inr True"
    unfolding e verify_signature_hexdigest by simp
  have st: "strip [CHR 0xE9] = [CHR 0xE9]"
    by code_simp
  have "\<not> is_ascii (CHR 0xE9)"
    by (simp add: is_ascii_def)
  then have b: "verify_signature ''a'' [] [CHR 0xE9] = Inl TypeError"
    by (simp add: verify_signature_def Let_def st compare_digest_def)
  show ?thesis using a b by simp
qed

subsection \<open>Ingestion endpoint\<close>

lemma not_a_signature_rejected:
  "verify_signature ''testsecret'' [] ''not-a-signature'' = Inr False"
proof -
  have st: "strip ''not-a-signature'' = ''not-a-signature''"
    by code_simp
  have asc: "list_all is_ascii ''not-a-signature''"
    by (simp add: is_ascii_def)
  have "CHR ''n'' \<notin> set (hexdigest (hmac_digest (encode_utf8 ''testsecret'') []))"
    using hexdigest_hex_chars [of "CHR ''n''"] by auto
  moreover have "CHR ''n'' \<in> set ''not-a-signature''"
    by simp
  ultimately have ne: "hexdigest (hmac_digest (encode_utf8 ''testsecret'') []) \<noteq> ''not-a-signature''"
    by metis
  have "compare_digest (hexdigest (hmac_digest (encode_utf8 ''testsecret'') [])) ''not-a-signature''
          = Inr (hexdigest (hmac_digest (encode_utf8 ''testsecret'') []) = ''not-a-signature'')"
    by (intro compare_digest_ascii hexdigest_ascii asc)
  then show ?thesis
    using ne by (simp add: verify_signature_def Let_def st)
qed

lemmas status_defs = HTTP_200_OK_def HTTP_400_BAD_REQUEST_def HTTP_401_UNAUTHORIZED_def
  HTTP_422_UNPROCESSABLE_ENTITY_def HTTP_500_INTERNAL_SERVER_ERROR_def HTTP_503_SERVICE_UNAVAILABLE_def

text \<open>
  C5 (as amended). With no secret configured \<open>webhook_endpoint\<close> raises an
  \<open>HTTPException\<close> with status 500 (internal server error) and changes
  nothing; 500 differs from the 401 of a signature mismatch, the 400 of a body
  that is not JSON and the 422 of a payload that fails validation, which are
  the outcomes of those three cases when a secret is configured.
\<close>

theorem webhook_endpoint_outcomes:
  "webhook_endpoint loads read_fields fromisoformat now [] raw_body x_signature st
     = (HTTPException HTTP_500_INTERNAL_SERVER_ERROR ''WEBHOOK_SECRET is not configured'', st)
   \<and> HTTP_500_INTERNAL_SERVER_ERROR \<notin>
        {HTTP_401_UNAUTHORIZED, HTTP_400_BAD_REQUEST, HTTP_422_UNPROCESSABLE_ENTITY}
   \<and> (secret \<noteq> [] \<and> verify_signature secret raw_body x_signature = Inr False \<longrightarrow>
        status_code (fst (webhook_endpoint loads read_fields fromisoformat now secret raw_body x_signature st))
          = HTTP_401_UNAUTHORIZED)
   \<and> (secret \<noteq> [] \<and> verify_signature secret raw_body x_signature = Inr True
        \<and> loads raw_body = JSONDecodeError \<longrightarrow>
        status_code (fst (webhook_endpoint loads read_fields fromisoformat now secret raw_body x_signature st))
          = HTTP_400_BAD_REQUEST)
   \<and> (secret \<noteq> [] \<and> verify_signature secret raw_body x_signature = Inr True
        \<and> loads raw_body = Loaded body_json
        \<and> (read_fields body_json = None
            \<or> (\<exists>raw. read_fields body_json = Some raw \<and> isl (parse_obj fromisoformat raw))) \<longrightarrow>
        status_code (fst (webhook_endpoint loads read_fields fromisoformat now secret raw_body x_signature st))
          = HTTP_422_UNPROCESSABLE_ENTITY)"
proof (intro conjI impI)
  show "webhook_endpoint loads read_fields fromisoformat now [] raw_body x_signature st
     = (HTTPException HTTP_500_INTERNAL_SERVER_ERROR ''WEBHOOK_SECRET is not configured'', st)"
    by (simp add: webhook_endpoint_def)
  show "HTTP_500_INTERNAL_SERVER_ERROR \<notin>
        {HTTP_401_UNAUTHORIZED, HTTP_400_BAD_REQUEST, HTTP_422_UNPROCESSABLE_ENTITY}"
    by (simp add: status_defs)
next
  assume "secret \<noteq> [] \<and> verify_signature secret raw_body x_signature = Inr False"
  then show "status_code (fst (webhook_endpoint loads read_fields fromisoformat now secret raw_body x_signature st))
          = HTTP_401_UNAUTHORIZED"
    by (simp add: webhook_endpoint_def)
next
  assume "secret \<noteq> [] \<and> verify_signature secret raw_body x_signature = Inr True
        \<and> loads raw_body = JSONDecodeError"
  then show "status_code (fst (webhook_endpoint loads read_fields fromisoformat now secret raw_body x_signature st))
          = HTTP_400_BAD_REQUEST"
    by (simp add: webhook_endpoint_def)
next
  assume a: "secret \<noteq> [] \<and> verify_signature secret raw_body x_signature = Inr True
        \<and> loads raw_body = Loaded body_json
        \<and> (read_fields body_json = None
            \<or> (\<exists>raw. read_fields body_json = Some raw \<and> isl (parse_obj fromisoformat raw)))"
  then have "(case read_fields body_json of
                None \<Rightarrow> None
              | Some raw \<Rightarrow> (case parse_obj fromisoformat raw of
                               Inl errors \<Rightarrow> None | Inr payload \<Rightarrow> Some payload)) = None"
    by (auto simp: isl_def)
  then show "status_code (fst (webhook_endpoint loads read_fields fromisoformat now secret raw_body x_signature st))
          = HTTP_422_UNPROCESSABLE_ENTITY"
    using a by (simp add: webhook_endpoint_def)
qed

theorem webhook_endpoint_outcomes_witness:
  "status_code (fst (webhook_endpoint (\<lambda>b. JSONDecodeError :: unit loads_result) (\<lambda>j. None)
       example_fromisoformat ''2025-01-15 10:00:01'' ''testsecret'' [] ''not-a-signature'' state0))
     = HTTP_401_UNAUTHORIZED
   \<and> status_code (fst (webhook_endpoint (\<lambda>b. JSONDecodeError :: unit loads_result) (\<lambda>j. None)
       example_fromisoformat ''2025-01-15 10:00:01'' ''testsecret'' []
       (hexdigest (hmac_digest (encode_utf8 ''testsecret'') [])) state0))
     = HTTP_400_BAD_REQUEST
   \<and> status_code (fst (webhook_endpoint (\<lambda>b. Loaded ()) (\<lambda>j. Some (raw_ok\<lparr>raw_from := Str ''12345''\<rparr>))
       example_fromisoformat ''2025-01-15 10:00:01'' ''testsecret'' []
       (hexdigest (hmac_digest (encode_utf8 ''testsecret'') [])) state0))
     = HTTP_422_UNPROCESSABLE_ENTITY"
proof -
  have ok: "verify_signature ''testsecret'' [] (hexdigest (hmac_digest (encode_utf8 ''testsecret'') [])) = Inr True"
    by (simp add: verify_signature_hexdigest)
  have bad: "isl (parse_obj example_fromisoformat (raw_ok\<lparr>raw_from := Str ''12345''\<rparr>))"
    by code_simp
  have a: "status_code (fst (webhook_endpoint (\<lambda>b. JSONDecodeError :: unit loads_result) (\<lambda>j. None)
       example_fromisoformat ''2025-01-15 10:00:01'' ''testsecret'' [] ''not-a-signature'' state0))
     = HTTP_401_UNAUTHORIZED"
    using not_a_signature_rejected
      webhook_endpoint_outcomes [where secret = "''testsecret''" and raw_body = "[]"
        and x_signature = "''not-a-signature''" and loads = "\<lambda>b. JSONDecodeError :: unit loads_result"
        and read_fields = "\<lambda>j. None" and fromisoformat = example_fromisoformat
        and now = "''2025-01-15 10:00:01''" and st = state0]
    by simp
  have b: "status_code (fst (webhook_endpoint (\<lambda>b. JSONDecodeError :: unit loads_result) (\<lambda>j. None)
       example_fromisoformat ''2025-01-15 10:00:01'' ''testsecret'' []
       (hexdigest (hmac_digest (encode_utf8 ''testsecret'') [])) state0))
     = HTTP_400_BAD_REQUEST"
    using ok
      webhook_endpoint_outcomes [where secret = "''testsecret''" and raw_body = "[]"
        and x_signature = "hexdigest (hmac_digest (encode_utf8 ''testsecret'') [])"
        and loads = "\<lambda>b. JSONDecodeError :: unit loads_result"
        and read_fields = "\<lambda>j. None" and fromisoformat = example_fromisoformat
        and now = "''2025-01-15 10:00:01''" and st = state0]
    by simp
  have c: "status_code (fst (webhook_endpoint (\<lambda>b. Loaded ()) (\<lambda>j. Some (raw_ok\<lparr>raw_from := Str ''12345''\<rparr>))
       example_fromisoformat ''2025-01-15 10:00:01'' ''testsecret'' []
       (hexdigest (hmac_digest (encode_utf8 ''testsecret'') [])) state0))
     = HTTP_422_UNPROCESSABLE_ENTITY"
    using ok bad
      webhook_endpoint_outcomes [where secret = "''testsecret''" and raw_body = "[]"
        and x_signature = "hexdigest (hmac_digest (encode_utf8 ''testsecret'') [])"
        and loads = "\<lambda>b. Loaded ()" and body_json = "()"
        and read_fields = "\<lambda>j. Some (raw_ok\<lparr>raw_from := Str ''12345''\<rparr>)"
        and fromisoformat = example_fromisoformat
        and now = "''2025-01-15 10:00:01''" and st = state0]
    by simp
  show ?thesis using a b c by blast
qed

text \<open>
  C5 as stated fails: the status without a secret is 500, not the 503
  (service unavailable) that \<open>health_ready\<close> returns in the same situation.
\<close>

theorem webhook_endpoint_no_secret_is_500_not_503:
  "status_code (fst (webhook_endpoint (\<lambda>b. JSONDecodeError :: unit loads_result) (\<lambda>j. None)
       example_fromisoformat ''2025-01-15 10:00:01'' [] [] ''not-a-signature'' state0))
     = HTTP_500_INTERNAL_SERVER_ERROR
   \<and> HTTP_500_INTERNAL_SERVER_ERROR \<noteq> HTTP_503_SERVICE_UNAVAILABLE
   \<and> status_code (health_ready [] state0) = HTTP_503_SERVICE_UNAVAILABLE"
  by (simp add: webhook_endpoint_def health_ready_def status_defs)

end
